theory Spec2Isabelle
  imports Main
begin

section \<open>Python text primitives used by the conflict resolver\<close>

text \<open>
  Text is a \<^typ>\<open>string\<close>; a file's lines are a \<^typ>\<open>string list\<close> in which every
  line keeps its terminator, as \<^verbatim>\<open>readlines()\<close> returns them.
\<close>

abbreviation LF :: char where "LF \<equiv> CHR 0x0A"
abbreviation CR :: char where "CR \<equiv> CHR 0x0D"

text \<open>\<^verbatim>\<open>s.startswith(p)\<close> and \<^verbatim>\<open>s.endswith(p)\<close>.\<close>

definition startswith :: "string \<Rightarrow> string \<Rightarrow> bool" where
  "startswith s p = (take (length p) s = p)"

definition endswith :: "string \<Rightarrow> string \<Rightarrow> bool" where
  "endswith s p = (length p \<le> length s \<and> drop (length s - length p) s = p)"

text \<open>\<^verbatim>\<open>xs[a:b]\<close> for indices that are not negative.\<close>

definition slice :: "'a list \<Rightarrow> nat \<Rightarrow> nat \<Rightarrow> 'a list" where
  "slice xs a b = take (b - a) (drop a xs)"

text \<open>
  A file opened with \<^verbatim>\<open>open(path, 'r')\<close> is read in universal-newlines mode: every
  \<^verbatim>\<open>\r\n\<close> and every lone \<^verbatim>\<open>\r\<close> reaches the program as \<^verbatim>\<open>\n\<close>.
\<close>

fun universal_newlines :: "string \<Rightarrow> string" where
  "universal_newlines [] = []"
| "universal_newlines [c] = (if c = CR then [LF] else [c])"
| "universal_newlines (c # d # cs) =
     (if c = CR then
        (if d = LF then LF # universal_newlines cs else LF # universal_newlines (d # cs))
      else c # universal_newlines (d # cs))"

text \<open>\<^verbatim>\<open>f.readlines()\<close>: the text cut after every \<^verbatim>\<open>\n\<close>; \<open>cur\<close> is the line being read.\<close>

fun split_lines :: "string \<Rightarrow> string \<Rightarrow> string list" where
  "split_lines cur [] = (if cur = [] then [] else [cur])"
| "split_lines cur (c # cs) =
     (if c = LF then (cur @ [c]) # split_lines [] cs else split_lines (cur @ [c]) cs)"

definition readlines :: "string \<Rightarrow> string list" where
  "readlines text = split_lines [] (universal_newlines text)"

section \<open>The file system and the console\<close>

datatype py_error =
  FileNotFoundError | PermissionError | AttributeError | NotRenderableError | MarkupError

datatype io_event = OpenRead string | OpenWrite string

text \<open>
  What \<^verbatim>\<open>resolve_conflict\<close> hands to \<^verbatim>\<open>console.print\<close> between its guard and its menu,
  one constructor for each call whose argument is built from the conflict block or the
  resolution, with the values it is built from: the heading (file path and line number),
  the panel with the explanation, the two sides of the conflict (printed after
  \<^verbatim>\<open>rstrip()\<close>), the suggestion line (colour and suggestion, printed upper-cased), the
  confidence line, the panel with the reasoning, and the proposed text (after \<^verbatim>\<open>rstrip()\<close>).
\<close>

datatype printed =
    ConflictHeader string nat
  | WhatChanged "string option"
  | YourVersion string
  | TheirVersion string
  | AISuggestion string string
  | Confidence string "string option"
  | Reasoning string "string option"
  | ProposedResolution string

text \<open>
  The files on disk (path to text), the paths that cannot be opened for writing, the
  console, and the file operations performed so far. The console is the \<^verbatim>\<open>rich\<close> library,
  which is not part of the repository: it is a parameter that says, for each thing printed,
  whether the call returns (\<open>None\<close>) or which exception it raises (a markup error for a
  text with an unmatched closing tag, for instance).
\<close>

record world =
  files :: "string \<rightharpoonup> string"
  unwritable :: "string set"
  console :: "printed \<Rightarrow> py_error option"
  trace :: "io_event list"

text \<open>\<^verbatim>\<open>with open(path, 'r', encoding='utf-8', errors='ignore') as f: lines = f.readlines()\<close>\<close>

definition read_file_lines :: "world \<Rightarrow> string \<Rightarrow> (py_error + string list) \<times> world" where
  "read_file_lines w path =
     (let w' = w\<lparr>trace := trace w @ [OpenRead path]\<rparr>
      in case files w path of
           None \<Rightarrow> (Inl FileNotFoundError, w')
         | Some text \<Rightarrow> (Inr (readlines text), w'))"

text \<open>
  \<^verbatim>\<open>with open(path, 'w', encoding='utf-8', newline='') as f: f.writelines(new_lines)\<close>:
  with \<^verbatim>\<open>newline=''\<close> nothing is translated on output.
\<close>

definition write_file_lines :: "world \<Rightarrow> string \<Rightarrow> string list \<Rightarrow> (py_error + unit) \<times> world" where
  "write_file_lines w path new_lines =
     (let w' = w\<lparr>trace := trace w @ [OpenWrite path]\<rparr>
      in if path \<in> unwritable w then (Inl PermissionError, w')
         else (Inr (), w'\<lparr>files := (files w)(path \<mapsto> concat new_lines)\<rparr>))"

section \<open>main.py: parse_conflict_file\<close>

text \<open>The dictionary that \<^verbatim>\<open>parse_conflict_file\<close> appends for each conflict block.\<close>

record conflict =
  file_path :: string
  start_line :: nat
  end_line :: nat
  current_content :: string
  incoming_content :: string
  context_before :: string
  context_after :: string

text \<open>
  The two inner loops
  \<^verbatim>\<open>while i < len(lines) and not lines[i].startswith(tok): acc.append(lines[i]); i += 1\<close>
  return the index where they stop and the lines collected.
\<close>

function scan_until :: "string \<Rightarrow> string list \<Rightarrow> nat \<Rightarrow> string list \<Rightarrow> nat \<times> string list" where
  "scan_until tok lines i acc =
     (if i < length lines \<and> \<not> startswith (lines ! i) tok
      then scan_until tok lines (i + 1) (acc @ [lines ! i])
      else (i, acc))"
  by pat_completeness auto
termination
  by (relation "measure (\<lambda>(tok, lines, i, acc). length lines - i)") auto

declare scan_until.simps [simp del]

lemma scan_until_step:
  "i < length lines \<Longrightarrow> \<not> startswith (lines ! i) tok \<Longrightarrow>
   scan_until tok lines i acc = scan_until tok lines (Suc i) (acc @ [lines ! i])"
  by (subst scan_until.simps) simp

lemma scan_until_stop:
  "startswith (lines ! i) tok \<Longrightarrow> scan_until tok lines i acc = (i, acc)"
  by (subst scan_until.simps) simp

lemma scan_until_end:
  "length lines \<le> i \<Longrightarrow> scan_until tok lines i acc = (i, acc)"
  by (subst scan_until.simps) simp

lemma scan_until_ge: "i \<le> fst (scan_until tok lines i acc)"
proof (induction tok lines i acc rule: scan_until.induct)
  case (1 tok lines i acc)
  show ?case
  proof (cases "i < length lines \<and> \<not> startswith (lines ! i) tok")
    case True
    with 1 have "i + 1 \<le> fst (scan_until tok lines (i + 1) (acc @ [lines ! i]))" by blast
    with True show ?thesis by (simp add: scan_until_step)
  next
    case False
    then show ?thesis by (auto simp: scan_until_stop scan_until_end)
  qed
qed

text \<open>
  The outer loop \<^verbatim>\<open>while i < len(lines)\<close> of \<^verbatim>\<open>parse_conflict_file\<close>. The index
  \<open>i - 5\<close> is \<^verbatim>\<open>max(0, i-5)\<close>: subtraction on \<^typ>\<open>nat\<close> stops at 0.
\<close>

function parse_loop :: "string \<Rightarrow> string list \<Rightarrow> nat \<Rightarrow> conflict list \<Rightarrow> conflict list" where
  "parse_loop path lines i conflicts =
     (if i < length lines then
        (if startswith (lines ! i) ''<<<<<<<'' then
           (case scan_until ''======='' lines (i + 1) [] of (i1, current_lines) \<Rightarrow>
            case scan_until ''>>>>>>>'' lines (i1 + 1) [] of (i3, incoming_lines) \<Rightarrow>
              parse_loop path lines (i3 + 1)
                (conflicts @
                 [\<lparr>file_path = path,
                   start_line = i,
                   end_line = i3,
                   current_content = concat current_lines,
                   incoming_content = concat incoming_lines,
                   context_before = concat (slice lines (max 0 (i - 5)) i),
                   context_after = concat (slice lines (i3 + 1) (min (length lines) (i3 + 6)))\<rparr>]))
         else parse_loop path lines (i + 1) conflicts)
      else conflicts)"
  by pat_completeness auto
termination
proof (relation "measure (\<lambda>(path, lines, i, conflicts). length lines - i)", goal_cases)
  case 1
  show ?case by simp
next
  case (2 path lines i conflicts i1 current_lines i3 incoming_lines)
  have "i + 1 \<le> i1"
    using scan_until_ge [of "i + 1" "''=======''" lines "[]"] 2 by (metis fst_conv)
  moreover have "i1 + 1 \<le> i3"
    using scan_until_ge [of "i1 + 1" "''>>>>>>>''" lines "[]"] 2 by (metis fst_conv)
  ultimately show ?case using 2 by simp
next
  case (3 path lines i conflicts)
  then show ?case by simp
qed

declare parse_loop.simps [simp del]

text \<open>
  \<^verbatim>\<open>parse_conflict_file(file_path)\<close>: a file that cannot be read gives the empty list.
\<close>

definition parse_conflict_file :: "world \<Rightarrow> string \<Rightarrow> conflict list \<times> world" where
  "parse_conflict_file w path =
     (case read_file_lines w path of
        (Inl e, w') \<Rightarrow> ([], w')
      | (Inr lines, w') \<Rightarrow> (parse_loop path lines 0 [], w'))"

section \<open>executor.py: resolve_conflict\<close>

text \<open>
  The resolution dictionary decoded from the model's JSON answer. A field is \<open>None\<close>
  when the key is missing or null, which is what \<^verbatim>\<open>resolution.get(key)\<close> returns then.
\<close>

record resolution =
  suggestion :: "string option"
  merged_content :: "string option"
  explanation :: "string option"
  confidence :: "string option"
  reasoning :: "string option"

text \<open>
  What \<^verbatim>\<open>questionary.select(...).ask()\<close> gives back inside the \<^verbatim>\<open>try\<close>: the menu
  entry selected, or a \<^verbatim>\<open>KeyboardInterrupt\<close>.
\<close>

datatype ask_result = Selected string | KeyboardInterrupt

text \<open>
  \<^verbatim>\<open>confidence_colors.get(confidence, "white")\<close>
\<close>

definition confidence_color :: "string option \<Rightarrow> string" where
  "confidence_color c =
     (if c = Some ''HIGH'' then ''green''
      else if c = Some ''MEDIUM'' then ''yellow''
      else if c = Some ''LOW'' then ''red''
      else ''white'')"

text \<open>The first exception of a sequence of statements, if any.\<close>

fun first_error :: "py_error option list \<Rightarrow> py_error option" where
  "first_error [] = None"
| "first_error (None # rest) = first_error rest"
| "first_error (Some e # rest) = Some e"

text \<open>
  The display block between the guard on \<^verbatim>\<open>merged_content\<close> and the menu. It sits outside
  every \<^verbatim>\<open>try\<close>, so what it raises leaves the function: whatever the console raises for
  one of the texts printed, and the \<^verbatim>\<open>AttributeError\<close> of \<^verbatim>\<open>suggestion.upper()\<close> when the
  suggestion is missing. The messages that are the same in every call are left out. The
  conflict block's own fields are always strings, \<^verbatim>\<open>parse_conflict_file\<close> builds them;
  \<open>merged\<close> is the \<^verbatim>\<open>merged_content\<close> that passed the guard.
\<close>

definition display ::
  "(printed \<Rightarrow> py_error option) \<Rightarrow> conflict \<Rightarrow> resolution \<Rightarrow> string \<Rightarrow> py_error option" where
  "display con conflict_block r merged =
     first_error
       [con (ConflictHeader (file_path conflict_block) (start_line conflict_block + 1)),
        con (WhatChanged (explanation r)),
        con (YourVersion (current_content conflict_block)),
        con (TheirVersion (incoming_content conflict_block)),
        (case suggestion r of
           None \<Rightarrow> Some AttributeError
         | Some s \<Rightarrow> con (AISuggestion (confidence_color (confidence r)) s)),
        con (Confidence (confidence_color (confidence r)) (confidence r)),
        con (Reasoning (confidence_color (confidence r)) (reasoning r)),
        con (ProposedResolution merged)]"

text \<open>
  \<^verbatim>\<open>if content_to_apply and not content_to_apply.endswith('\n'): content_to_apply += '\n'\<close>
\<close>

definition ensure_newline :: "string \<Rightarrow> string" where
  "ensure_newline content_to_apply =
     (if content_to_apply \<noteq> [] \<and> \<not> endswith content_to_apply [LF]
      then content_to_apply @ [LF] else content_to_apply)"

text \<open>
  The final \<^verbatim>\<open>try\<close> block: read the file again, splice, write. Every exception in it is
  caught and turned into the result \<^verbatim>\<open>False\<close>.
\<close>

definition apply_resolution :: "world \<Rightarrow> conflict \<Rightarrow> string \<Rightarrow> bool \<times> world" where
  "apply_resolution w conflict_block content_to_apply =
     (case read_file_lines w (file_path conflict_block) of
        (Inl e, w1) \<Rightarrow> (False, w1)
      | (Inr lines, w1) \<Rightarrow>
          (let new_lines =
                 take (start_line conflict_block) lines @
                 [ensure_newline content_to_apply] @
                 drop (end_line conflict_block + 1) lines
           in case write_file_lines w1 (file_path conflict_block) new_lines of
                (Inl e, w2) \<Rightarrow> (False, w2)
              | (Inr u, w2) \<Rightarrow> (True, w2)))"

text \<open>
  "Determine what content to use": the AI's \<^verbatim>\<open>merged_content\<close> unless the menu entry
  selected is "Keep YOUR version" or "Keep THEIR version".
\<close>

definition choose_content :: "string \<Rightarrow> conflict \<Rightarrow> string \<Rightarrow> string" where
  "choose_content choice conflict_block merged =
     (if choice = ''Keep YOUR version'' then current_content conflict_block
      else if choice = ''Keep THEIR version'' then incoming_content conflict_block
      else merged)"

text \<open>
  \<^verbatim>\<open>resolve_conflict(conflict_block, resolution)\<close>, with the user's answer to the menu as
  an input. The result is the value returned (\<open>Inr\<close>) or the exception that escapes (\<open>Inl\<close>),
  and the world afterwards.
\<close>

definition resolve_conflict ::
  "world \<Rightarrow> conflict \<Rightarrow> resolution \<Rightarrow> ask_result \<Rightarrow> (py_error + bool) \<times> world" where
  "resolve_conflict w conflict_block r answer =
     (case merged_content r of
        None \<Rightarrow> (Inr False, w)
      | Some merged \<Rightarrow>
          if merged = [] then (Inr False, w)
          else
            (case display (console w) conflict_block r merged of
               Some e \<Rightarrow> (Inl e, w)
             | None \<Rightarrow>
                 (case answer of
                    KeyboardInterrupt \<Rightarrow> (Inr False, w)
                  | Selected choice \<Rightarrow>
                      if choice = ''Cancel'' then (Inr False, w)
                      else if choice = ''Skip for now'' then (Inr False, w)
                      else
                        (case apply_resolution w conflict_block
                                (choose_content choice conflict_block merged) of
                           (b, w') \<Rightarrow> (Inr b, w')))))"

section \<open>Concrete files and resolutions\<close>

text \<open>
  The console of the examples. It refuses every text that contains a square bracket (no
  markup at all reaches it) and a panel without content; the texts of the examples have
  no bracket, so that nothing depends on how markup is read.
\<close>

fun printed_texts :: "printed \<Rightarrow> string list" where
  "printed_texts (ConflictHeader path n) = [path]"
| "printed_texts (WhatChanged e) = (case e of None \<Rightarrow> [] | Some t \<Rightarrow> [t])"
| "printed_texts (YourVersion t) = [t]"
| "printed_texts (TheirVersion t) = [t]"
| "printed_texts (AISuggestion colour t) = [t]"
| "printed_texts (Confidence colour c) = (case c of None \<Rightarrow> [] | Some t \<Rightarrow> [t])"
| "printed_texts (Reasoning colour e) = (case e of None \<Rightarrow> [] | Some t \<Rightarrow> [t])"
| "printed_texts (ProposedResolution t) = [t]"

fun strict_console :: "printed \<Rightarrow> py_error option" where
  "strict_console (WhatChanged None) = Some NotRenderableError"
| "strict_console (Reasoning colour None) = Some NotRenderableError"
| "strict_console item =
     (if \<exists>t\<in>set (printed_texts item). CHR ''['' \<in> set t then Some MarkupError else None)"

text \<open>The scenario of the specification: one conflict between two context lines.\<close>

definition scenario_lines :: "string list" where
  "scenario_lines =
     [''a\<newline>'', ''<<<<<<< HEAD\<newline>'', ''x\<newline>'', ''=======\<newline>'',
      ''y\<newline>'', ''>>>>>>> feature\<newline>'', ''b\<newline>'']"

definition scenario_block :: "string \<Rightarrow> conflict" where
  "scenario_block path =
     \<lparr>file_path = path, start_line = 1, end_line = 5,
      current_content = concat [''x\<newline>''], incoming_content = concat [''y\<newline>''],
      context_before = concat [''a\<newline>''], context_after = concat [''b\<newline>'']\<rparr>"

definition scenario_world :: world where
  "scenario_world = \<lparr>files = [''f.txt'' \<mapsto> concat scenario_lines], unwritable = {}, console = strict_console, trace = []\<rparr>"

definition scenario_resolution :: resolution where
  "scenario_resolution =
     \<lparr>suggestion = Some ''keep_incoming'', merged_content = Some ''y'',
      explanation = Some ''e'', confidence = Some ''HIGH'', reasoning = Some ''r''\<rparr>"

text \<open>The same file with \<^verbatim>\<open>\r\n\<close> line terminators, and a resolution without a final newline.\<close>

definition crlf_text :: string where
  "crlf_text =
     concat (map (\<lambda>l. l @ [CR, LF])
       [''a'', ''<<<<<<< HEAD'', ''x'', ''======='', ''y'', ''>>>>>>> feature'', ''b''])"

definition crlf_world :: world where
  "crlf_world = \<lparr>files = [''f.txt'' \<mapsto> crlf_text], unwritable = {}, console = strict_console, trace = []\<rparr>"

definition custom_resolution :: resolution where
  "custom_resolution =
     \<lparr>suggestion = Some ''custom'', merged_content = Some ''z'',
      explanation = Some ''e'', confidence = Some ''LOW'', reasoning = Some ''r''\<rparr>"

text \<open>A resolution tagged \<^verbatim>\<open>keep_both\<close> whose text is neither side of the scenario.\<close>

definition keep_both_resolution :: resolution where
  "keep_both_resolution =
     \<lparr>suggestion = Some ''keep_both'', merged_content = Some ''z\<newline>'',
      explanation = Some ''e'', confidence = Some ''HIGH'', reasoning = Some ''r''\<rparr>"

text \<open>A conflict whose local side is empty: the current branch deleted what the other changed.\<close>

definition deleted_lines :: "string list" where
  "deleted_lines =
     [''a\<newline>'', ''<<<<<<< HEAD\<newline>'', ''=======\<newline>'',
      ''y\<newline>'', ''>>>>>>> feature\<newline>'', ''b\<newline>'']"

definition deleted_block :: conflict where
  "deleted_block =
     \<lparr>file_path = ''f.txt'', start_line = 1, end_line = 4,
      current_content = [], incoming_content = ''y\<newline>'',
      context_before = ''a\<newline>'', context_after = ''b\<newline>''\<rparr>"

definition deleted_world :: world where
  "deleted_world = \<lparr>files = [''f.txt'' \<mapsto> concat deleted_lines], unwritable = {}, console = strict_console, trace = []\<rparr>"

text \<open>Resolutions that differ from \<open>custom_resolution\<close> in everything but the merged text, or have none.\<close>

definition other_resolution :: resolution where
  "other_resolution =
     \<lparr>suggestion = Some ''keep_current'', merged_content = Some ''z'',
      explanation = Some ''another explanation'', confidence = None,
      reasoning = Some ''another reasoning''\<rparr>"

definition empty_resolution :: resolution where
  "empty_resolution =
     \<lparr>suggestion = Some ''custom'', merged_content = Some [],
      explanation = Some ''e'', confidence = Some ''LOW'', reasoning = Some ''r''\<rparr>"

definition missing_resolution :: resolution where
  "missing_resolution =
     \<lparr>suggestion = None, merged_content = None,
      explanation = None, confidence = None, reasoning = None\<rparr>"



text \<open>
  The specification's notion of a file's dominant terminator style, for comparison with
  the code: \<^verbatim>\<open>\r\n\<close> when the text has more \<^verbatim>\<open>\r\n\<close> than lone \<^verbatim>\<open>\n\<close>, else \<^verbatim>\<open>\n\<close>.
\<close>

fun count_crlf :: "string \<Rightarrow> nat" where
  "count_crlf (c # d # cs) =
     (if c = CR \<and> d = LF then 1 + count_crlf cs else count_crlf (d # cs))"
| "count_crlf cs = 0"

definition spec_dominant_terminator :: "string \<Rightarrow> string" where
  "spec_dominant_terminator text =
     (if count_list text LF - count_crlf text < count_crlf text then [CR, LF] else [LF])"

section \<open>Well-formed conflict files\<close>

text \<open>
  A conflict region as the specification describes it, for comparison with the scanner: an
  opening marker line, the local lines, a separator line, the incoming lines, a closing
  marker line, and the unmarked lines that follow the region.
\<close>

record segment =
  opener :: string
  local_body :: "string list"
  separator :: string
  incoming_body :: "string list"
  closer :: string
  trailing :: "string list"

definition well_formed_segment :: "segment \<Rightarrow> bool" where
  "well_formed_segment s =
     (startswith (opener s) ''<<<<<<<'' \<and>
      (\<forall>l\<in>set (local_body s). \<not> startswith l ''======='') \<and>
      startswith (separator s) ''======='' \<and>
      (\<forall>l\<in>set (incoming_body s). \<not> startswith l ''>>>>>>>'') \<and>
      startswith (closer s) ''>>>>>>>'' \<and>
      (\<forall>l\<in>set (trailing s). \<not> startswith l ''<<<<<<<''))"

text \<open>The lines of a file that has some leading lines and then the given regions, in order.\<close>

definition segment_lines :: "segment \<Rightarrow> string list" where
  "segment_lines s =
     opener s # local_body s @ separator s # incoming_body s @ closer s # trailing s"

definition document :: "string list \<Rightarrow> segment list \<Rightarrow> string list" where
  "document leading segs = leading @ concat (map segment_lines segs)"

text \<open>
  The regions the specification expects for such a file: one for each region, in order,
  with \<open>off\<close> the index of the region's opening marker.
\<close>

fun expected_regions :: "string \<Rightarrow> string list \<Rightarrow> nat \<Rightarrow> segment list \<Rightarrow> conflict list" where
  "expected_regions path lines off [] = []"
| "expected_regions path lines off (s # ss) =
     \<lparr>file_path = path,
      start_line = off,
      end_line = off + length (local_body s) + length (incoming_body s) + 2,
      current_content = concat (local_body s),
      incoming_content = concat (incoming_body s),
      context_before = concat (slice lines (off - 5) off),
      context_after =
        concat (slice lines (off + length (local_body s) + length (incoming_body s) + 3)
          (min (length lines) (off + length (local_body s) + length (incoming_body s) + 8)))\<rparr>
     # expected_regions path lines (off + length (segment_lines s)) ss"



definition unterminated_world :: world where
  "unterminated_world =
     \<lparr>files = [''f.txt'' \<mapsto> ''<<<<<<< HEAD\<newline>x\<newline>'',
               ''g.txt'' \<mapsto> ''<<<<<<< HEAD\<newline>x\<newline>=======\<newline>y\<newline>''],
      unwritable = {}, console = strict_console, trace = []\<rparr>"

section \<open>Facts shared by the claims\<close>

lemma scan_example: "parse_loop path scenario_lines 0 [] = [scenario_block path]"
  by (simp add: scenario_lines_def scenario_block_def parse_loop.simps scan_until.simps
      startswith_def slice_def)

lemma readlines_three:
  "readlines (concat [''a\<newline>'', ''y\<newline>'', ''b\<newline>'']) =
   [''a\<newline>'', ''y\<newline>'', ''b\<newline>'']"
  by (simp add: readlines_def)

lemma readlines_scenario: "readlines (concat scenario_lines) = scenario_lines"
  by (simp add: scenario_lines_def readlines_def)

lemma readlines_crlf: "readlines crlf_text = scenario_lines"
  by (simp add: crlf_text_def scenario_lines_def readlines_def)

lemma readlines_deleted: "readlines (concat deleted_lines) = deleted_lines"
  by (simp add: deleted_lines_def readlines_def)

lemma console_examples:
  "console scenario_world = strict_console" "console crlf_world = strict_console"
  "console deleted_world = strict_console"
  by (simp_all add: scenario_world_def crlf_world_def deleted_world_def)

lemma display_examples:
  "display (console deleted_world) deleted_block scenario_resolution ''y'' = None"
  "display (console scenario_world) (scenario_block ''f.txt'') custom_resolution ''z'' = None"
  "display (console scenario_world) (scenario_block ''f.txt'') keep_both_resolution
     ''z\<newline>'' = None"
  "display (console crlf_world) (scenario_block ''f.txt'') custom_resolution ''z'' = None"
  "display (console scenario_world) (scenario_block ''f.txt'') scenario_resolution ''y'' = None"
  "display (console scenario_world) (scenario_block ''f.txt'') other_resolution ''z'' = None"
  by (simp_all add: console_examples display_def confidence_color_def scenario_block_def
      deleted_block_def scenario_resolution_def custom_resolution_def keep_both_resolution_def
      other_resolution_def)

lemma ensure_newline_last:
  "ensure_newline s = (if s \<noteq> [] \<and> last s \<noteq> LF then s @ [LF] else s)"
  by (cases s rule: rev_cases) (auto simp: ensure_newline_def endswith_def)

lemma apply_resolution_ok:
  assumes "files w (file_path c) = Some text" and "file_path c \<notin> unwritable w"
  shows "apply_resolution w c content =
    (True, w\<lparr>trace := trace w @ [OpenRead (file_path c), OpenWrite (file_path c)],
             files := (files w)(file_path c \<mapsto>
               concat (take (start_line c) (readlines text) @ [ensure_newline content] @
                       drop (end_line c + 1) (readlines text)))\<rparr>)"
  using assms
  by (simp add: apply_resolution_def read_file_lines_def write_file_lines_def Let_def)

lemma resolve_conflict_applied:
  assumes "merged_content r = Some merged" and "merged \<noteq> []"
    and "display (console w) c r merged = None"
    and "choice \<noteq> ''Cancel''" and "choice \<noteq> ''Skip for now''"
    and "files w (file_path c) = Some text" and "file_path c \<notin> unwritable w"
  shows "resolve_conflict w c r (Selected choice) =
    (Inr True, w\<lparr>trace := trace w @ [OpenRead (file_path c), OpenWrite (file_path c)],
             files := (files w)(file_path c \<mapsto>
               concat (take (start_line c) (readlines text) @
                       [ensure_newline (choose_content choice c merged)] @
                       drop (end_line c + 1) (readlines text)))\<rparr>)"
  using assms(1-5) apply_resolution_ok [OF assms(6,7)]
  by (simp add: resolve_conflict_def)

lemma resolve_conflict_rejected:
  "merged_content r = None \<or> merged_content r = Some [] \<Longrightarrow>
   resolve_conflict w c r answer = (Inr False, w)"
  by (auto simp: resolve_conflict_def)

lemma resolve_conflict_declined:
  "merged_content r = Some merged \<Longrightarrow> display (console w) c r merged = None \<Longrightarrow>
   answer = Selected ''Cancel'' \<or> answer = Selected ''Skip for now'' \<Longrightarrow>
   resolve_conflict w c r answer = (Inr False, w)"
  by (auto simp: resolve_conflict_def)

lemma resolve_conflict_raises:
  "merged_content r = Some merged \<Longrightarrow> merged \<noteq> [] \<Longrightarrow>
   display (console w) c r merged = Some e \<Longrightarrow>
   resolve_conflict w c r answer = (Inl e, w)"
  by (simp add: resolve_conflict_def)

lemma resolve_conflict_world:
  "answer = KeyboardInterrupt \<or> answer = Selected ''Cancel'' \<or> answer = Selected ''Skip for now'' \<Longrightarrow>
   snd (resolve_conflict w c r answer) = w \<and> fst (resolve_conflict w c r answer) \<noteq> Inr True"
  by (auto simp: resolve_conflict_def split: option.splits)


lemma scenario_block_simps:
  "file_path (scenario_block p) = p" "start_line (scenario_block p) = 1"
  "end_line (scenario_block p) = 5" "current_content (scenario_block p) = ''x\<newline>''"
  "incoming_content (scenario_block p) = ''y\<newline>''"
  by (simp_all add: scenario_block_def)

lemma scenario_world_simps:
  "files scenario_world ''f.txt'' = Some (concat scenario_lines)"
  "''f.txt'' \<notin> unwritable scenario_world" "trace scenario_world = []"
  by (simp_all add: scenario_world_def)

lemma crlf_world_simps:
  "files crlf_world ''f.txt'' = Some crlf_text"
  "''f.txt'' \<notin> unwritable crlf_world" "trace crlf_world = []"
  by (simp_all add: crlf_world_def)

lemma deleted_world_simps:
  "files deleted_world ''f.txt'' = Some (concat deleted_lines)"
  "''f.txt'' \<notin> unwritable deleted_world" "trace deleted_world = []"
  by (simp_all add: deleted_world_def)

lemma merged_examples:
  "merged_content scenario_resolution = Some ''y''"
  "merged_content custom_resolution = Some ''z''"
  "merged_content keep_both_resolution = Some ''z\<newline>''"
  by (simp_all add: scenario_resolution_def custom_resolution_def keep_both_resolution_def)


lemma deleted_block_simps:
  "file_path deleted_block = ''f.txt''" "start_line deleted_block = 1"
  "end_line deleted_block = 4" "current_content deleted_block = []"
  "incoming_content deleted_block = ''y\<newline>''"
  by (simp_all add: deleted_block_def)

lemma scan_deleted: "parse_loop ''f.txt'' deleted_lines 0 [] = [deleted_block]"
  by (simp add: deleted_lines_def deleted_block_def parse_loop.simps scan_until.simps
      startswith_def slice_def)

lemma apply_resolution_missing:
  "files w (file_path c) = None \<Longrightarrow>
   apply_resolution w c content = (False, w\<lparr>trace := trace w @ [OpenRead (file_path c)]\<rparr>)"
  by (simp add: apply_resolution_def read_file_lines_def Let_def)

lemma apply_resolution_unwritable:
  "files w (file_path c) = Some text \<Longrightarrow> file_path c \<in> unwritable w \<Longrightarrow>
   apply_resolution w c content =
     (False, w\<lparr>trace := trace w @ [OpenRead (file_path c), OpenWrite (file_path c)]\<rparr>)"
  by (simp add: apply_resolution_def read_file_lines_def write_file_lines_def Let_def)

lemma resolve_conflict_apply:
  "merged_content r = Some merged \<Longrightarrow> merged \<noteq> [] \<Longrightarrow>
   display (console w) c r merged = None \<Longrightarrow>
   choice \<noteq> ''Cancel'' \<Longrightarrow> choice \<noteq> ''Skip for now'' \<Longrightarrow>
   resolve_conflict w c r (Selected choice) =
     (Inr (fst (apply_resolution w c (choose_content choice c merged))),
      snd (apply_resolution w c (choose_content choice c merged)))"
  by (simp add: resolve_conflict_def split: prod.splits)

lemma resolve_conflict_True:
  assumes "fst (resolve_conflict w c r (Selected choice)) = Inr True"
  shows "\<exists>merged text. merged_content r = Some merged \<and> merged \<noteq> [] \<and>
     display (console w) c r merged = None \<and>
     choice \<noteq> ''Cancel'' \<and> choice \<noteq> ''Skip for now'' \<and>
     files w (file_path c) = Some text \<and> file_path c \<notin> unwritable w"
proof -
  have m0: "\<not> (merged_content r = None \<or> merged_content r = Some [])"
  proof
    assume "merged_content r = None \<or> merged_content r = Some []"
    then have "resolve_conflict w c r (Selected choice) = (Inr False, w)"
      by (rule resolve_conflict_rejected)
    with assms show False by simp
  qed
  then obtain merged where m: "merged_content r = Some merged" "merged \<noteq> []"
    by (cases "merged_content r") auto
  have d: "display (console w) c r merged = None"
  proof (cases "display (console w) c r merged")
    case (Some e)
    from resolve_conflict_raises [OF m Some, of "Selected choice"] assms
    show ?thesis by simp
  qed simp
  have ch: "\<not> (Selected choice = Selected ''Cancel'' \<or> Selected choice = Selected ''Skip for now'')"
  proof
    assume "Selected choice = Selected ''Cancel'' \<or> Selected choice = Selected ''Skip for now''"
    with m(1) d have "resolve_conflict w c r (Selected choice) = (Inr False, w)"
      by (rule resolve_conflict_declined)
    with assms show False by simp
  qed
  then have ch1: "choice \<noteq> ''Cancel''" and ch2: "choice \<noteq> ''Skip for now''" by simp_all
  from assms resolve_conflict_apply [OF m d ch1 ch2]
  have ap: "fst (apply_resolution w c (choose_content choice c merged))" by simp
  have "files w (file_path c) \<noteq> None"
  proof
    assume "files w (file_path c) = None"
    from apply_resolution_missing [OF this, of "choose_content choice c merged"] ap
    show False by simp
  qed
  then obtain t0 where t: "files w (file_path c) = Some t0" by auto
  have "file_path c \<notin> unwritable w"
  proof
    assume "file_path c \<in> unwritable w"
    from apply_resolution_unwritable [OF t this, of "choose_content choice c merged"] ap
    show False by simp
  qed
  with m d ch1 ch2 t show ?thesis by blast
qed

subsection \<open>The scanner's loops\<close>

lemma scan_until_takeWhile:
  "scan_until tok lines i acc =
     (i + length (takeWhile (\<lambda>l. \<not> startswith l tok) (drop i lines)),
      acc @ takeWhile (\<lambda>l. \<not> startswith l tok) (drop i lines))"
proof (induction tok lines i acc rule: scan_until.induct)
  case (1 tok lines i acc)
  show ?case
  proof (cases "i < length lines")
    case False
    then show ?thesis by (simp add: scan_until_end)
  next
    case True
    then have d: "drop i lines = lines ! i # drop (Suc i) lines"
      by (simp add: Cons_nth_drop_Suc)
    show ?thesis
    proof (cases "startswith (lines ! i) tok")
      case True
      then show ?thesis by (simp add: scan_until_stop d)
    next
      case False
      with \<open>i < length lines\<close> 1 have
        "scan_until tok lines (i + 1) (acc @ [lines ! i]) =
           (i + 1 + length (takeWhile (\<lambda>l. \<not> startswith l tok) (drop (i + 1) lines)),
            (acc @ [lines ! i]) @ takeWhile (\<lambda>l. \<not> startswith l tok) (drop (i + 1) lines))"
        by blast
      with False \<open>i < length lines\<close> show ?thesis
        by (simp add: scan_until_step d)
    qed
  qed
qed

lemma parse_loop_end: "length lines \<le> i \<Longrightarrow> parse_loop path lines i acc = acc"
  by (subst parse_loop.simps) simp

lemma parse_loop_skip:
  "i < length lines \<Longrightarrow> \<not> startswith (lines ! i) ''<<<<<<<'' \<Longrightarrow>
   parse_loop path lines i acc = parse_loop path lines (Suc i) acc"
  by (subst parse_loop.simps) simp

lemma parse_loop_open:
  "i < length lines \<Longrightarrow> startswith (lines ! i) ''<<<<<<<'' \<Longrightarrow>
   scan_until ''======='' lines (Suc i) [] = (i1, current_lines) \<Longrightarrow>
   scan_until ''>>>>>>>'' lines (Suc i1) [] = (i3, incoming_lines) \<Longrightarrow>
   parse_loop path lines i acc =
     parse_loop path lines (Suc i3)
       (acc @ [\<lparr>file_path = path, start_line = i, end_line = i3,
                current_content = concat current_lines,
                incoming_content = concat incoming_lines,
                context_before = concat (slice lines (max 0 (i - 5)) i),
                context_after = concat (slice lines (i3 + 1) (min (length lines) (i3 + 6)))\<rparr>])"
  by (subst parse_loop.simps) simp

lemma parse_loop_plain:
  "\<forall>l\<in>set p. \<not> startswith l ''<<<<<<<'' \<Longrightarrow>
   parse_loop path (pre @ p @ rest) (length pre) acc =
   parse_loop path (pre @ p @ rest) (length pre + length p) acc"
proof (induction p arbitrary: pre)
  case Nil
  then show ?case by simp
next
  case (Cons x p)
  have "parse_loop path (pre @ (x # p) @ rest) (length pre) acc =
        parse_loop path (pre @ (x # p) @ rest) (Suc (length pre)) acc"
    using Cons.prems by (intro parse_loop_skip) (simp_all add: nth_append)
  also have "\<dots> = parse_loop path ((pre @ [x]) @ p @ rest) (length (pre @ [x])) acc" by simp
  also have "\<dots> = parse_loop path ((pre @ [x]) @ p @ rest) (length (pre @ [x]) + length p) acc"
    using Cons.prems by (intro Cons.IH) simp
  finally show ?case by simp
qed

lemma takeWhile_stop:
  "\<forall>x\<in>set xs. P x \<Longrightarrow> \<not> P y \<Longrightarrow> takeWhile P (xs @ y # ys) = xs"
  by (induction xs) auto

lemma scan_until_block:
  assumes "\<forall>l\<in>set body. \<not> startswith l tok" and "startswith m tok"
  shows "scan_until tok (pre @ body @ m # rest) (length pre) [] = (length pre + length body, body)"
  using assms by (simp add: scan_until_takeWhile takeWhile_stop)

lemma parse_loop_segment:
  assumes "well_formed_segment s"
  shows "parse_loop path (pre @ segment_lines s @ rest) (length pre) acc =
    parse_loop path (pre @ segment_lines s @ rest) (length pre + length (segment_lines s))
      (acc @ [hd (expected_regions path (pre @ segment_lines s @ rest) (length pre) [s])])"
proof -
  let ?ls = "pre @ segment_lines s @ rest"
  let ?i = "length pre"
  let ?i1 = "?i + 1 + length (local_body s)"
  let ?i3 = "?i1 + 1 + length (incoming_body s)"
  from assms have o: "startswith (opener s) ''<<<<<<<''"
    and l: "\<forall>l\<in>set (local_body s). \<not> startswith l ''=======''"
    and sp: "startswith (separator s) ''=======''"
    and n: "\<forall>l\<in>set (incoming_body s). \<not> startswith l ''>>>>>>>''"
    and c: "startswith (closer s) ''>>>>>>>''"
    and t: "\<forall>l\<in>set (trailing s). \<not> startswith l ''<<<<<<<''"
    by (simp_all add: well_formed_segment_def)
  have len: "?i < length ?ls" by (simp add: segment_lines_def)
  have at: "?ls ! ?i = opener s" by (simp add: segment_lines_def)
  have "?ls = (pre @ [opener s]) @ local_body s @ separator s #
      (incoming_body s @ closer s # trailing s @ rest)"
    by (simp add: segment_lines_def)
  then have "scan_until ''======='' ?ls (length (pre @ [opener s])) [] =
      (length (pre @ [opener s]) + length (local_body s), local_body s)"
    using scan_until_block [OF l sp, of "pre @ [opener s]"] by simp
  then have s1: "scan_until ''======='' ?ls (Suc ?i) [] = (?i1, local_body s)" by simp
  have "?ls = (pre @ opener s # local_body s @ [separator s]) @ incoming_body s @ closer s #
      (trailing s @ rest)"
    by (simp add: segment_lines_def)
  then have "scan_until ''>>>>>>>'' ?ls (length (pre @ opener s # local_body s @ [separator s])) [] =
      (length (pre @ opener s # local_body s @ [separator s]) + length (incoming_body s),
       incoming_body s)"
    using scan_until_block [OF n c, of "pre @ opener s # local_body s @ [separator s]"] by simp
  then have s2: "scan_until ''>>>>>>>'' ?ls (Suc ?i1) [] = (?i3, incoming_body s)" by simp
  have step: "parse_loop path ?ls ?i acc =
      parse_loop path ?ls (Suc ?i3)
        (acc @ [hd (expected_regions path ?ls ?i [s])])"
    using parse_loop_open [OF len _ s1 s2, of path acc] o at
    by (simp add: add.assoc numeral_eq_Suc)
  have "?ls = (pre @ opener s # local_body s @ separator s # incoming_body s @ [closer s]) @
      trailing s @ rest"
    by (simp add: segment_lines_def)
  then have "parse_loop path ?ls
      (length (pre @ opener s # local_body s @ separator s # incoming_body s @ [closer s]))
      (acc @ [hd (expected_regions path ?ls ?i [s])]) =
    parse_loop path ?ls
      (length (pre @ opener s # local_body s @ separator s # incoming_body s @ [closer s]) +
       length (trailing s))
      (acc @ [hd (expected_regions path ?ls ?i [s])])"
    using parse_loop_plain [OF t,
        of path "pre @ opener s # local_body s @ separator s # incoming_body s @ [closer s]" rest]
    by simp
  then have "parse_loop path ?ls (Suc ?i3) (acc @ [hd (expected_regions path ?ls ?i [s])]) =
      parse_loop path ?ls (?i + length (segment_lines s))
        (acc @ [hd (expected_regions path ?ls ?i [s])])"
    by (simp add: segment_lines_def add.assoc)
  with step show ?thesis by simp
qed

lemma parse_loop_segments:
  "\<forall>s\<in>set segs. well_formed_segment s \<Longrightarrow>
   parse_loop path (pre @ concat (map segment_lines segs)) (length pre) acc =
   acc @ expected_regions path (pre @ concat (map segment_lines segs)) (length pre) segs"
proof (induction segs arbitrary: pre acc)
  case Nil
  then show ?case by (simp add: parse_loop_end)
next
  case (Cons s ss)
  let ?ls = "pre @ segment_lines s @ concat (map segment_lines ss)"
  let ?r = "hd (expected_regions path ?ls (length pre) [s])"
  from Cons.prems have wf: "well_formed_segment s" and rest: "\<forall>s\<in>set ss. well_formed_segment s"
    by simp_all
  have "parse_loop path ?ls (length pre) acc =
      parse_loop path ?ls (length pre + length (segment_lines s)) (acc @ [?r])"
    by (rule parse_loop_segment [OF wf])
  also have "\<dots> = parse_loop path ((pre @ segment_lines s) @ concat (map segment_lines ss))
      (length (pre @ segment_lines s)) (acc @ [?r])"
    by simp
  also have "\<dots> = (acc @ [?r]) @
      expected_regions path ((pre @ segment_lines s) @ concat (map segment_lines ss))
        (length (pre @ segment_lines s)) ss"
    by (rule Cons.IH [OF rest])
  also have "\<dots> = acc @ expected_regions path ?ls (length pre) (s # ss)"
    by simp
  finally show ?case by simp
qed

lemma parse_loop_document:
  assumes "\<forall>l\<in>set leading. \<not> startswith l ''<<<<<<<''"
    and "\<forall>s\<in>set segs. well_formed_segment s"
  shows "parse_loop path (document leading segs) 0 [] =
    expected_regions path (document leading segs) (length leading) segs"
proof -
  have "parse_loop path ([] @ leading @ concat (map segment_lines segs)) (length ([] :: string list)) [] =
      parse_loop path ([] @ leading @ concat (map segment_lines segs))
        (length ([] :: string list) + length leading) []"
    by (rule parse_loop_plain [OF assms(1)])
  then have "parse_loop path (document leading segs) 0 [] =
      parse_loop path (leading @ concat (map segment_lines segs)) (length leading) []"
    by (simp add: document_def)
  also have "\<dots> = [] @ expected_regions path (leading @ concat (map segment_lines segs))
      (length leading) segs"
    by (rule parse_loop_segments [OF assms(2)])
  finally show ?thesis by (simp add: document_def)
qed





lemma scan_until_bounds:
  assumes "scan_until tok lines i acc = (j, ys)"
  shows "i \<le> j" and "j \<le> max i (length lines)"
    and "j < length lines \<Longrightarrow> startswith (lines ! j) tok"
proof -
  let ?tw = "takeWhile (\<lambda>l. \<not> startswith l tok) (drop i lines)"
  from assms have j: "j = i + length ?tw" by (simp add: scan_until_takeWhile)
  then show "i \<le> j" by simp
  have le: "length ?tw \<le> length (drop i lines)" by (rule length_takeWhile_le)
  with j show "j \<le> max i (length lines)" by simp
  assume lt: "j < length lines"
  with j have "length ?tw < length (drop i lines)" by simp
  then have "\<not> \<not> startswith (drop i lines ! length ?tw) tok"
    by (rule nth_length_takeWhile)
  moreover have "drop i lines ! length ?tw = lines ! j"
    using lt j by simp
  ultimately show "startswith (lines ! j) tok" by simp
qed

lemma opener_not_closer: "startswith l ''<<<<<<<'' \<Longrightarrow> \<not> startswith l ''>>>>>>>''"
  by (auto simp: startswith_def)

lemma parse_loop_unterminated:
  assumes "i \<le> k" and "k < length lines" and "startswith (lines ! k) ''<<<<<<<''"
    and "\<forall>j. k < j \<and> j < length lines \<longrightarrow> \<not> startswith (lines ! j) ''>>>>>>>''"
  shows "parse_loop path lines i acc \<noteq> [] \<and>
    length lines \<le> end_line (last (parse_loop path lines i acc)) \<and>
    end_line (last (parse_loop path lines i acc)) \<le> length lines + 1"
  using assms
proof (induction path lines i acc rule: parse_loop.induct)
  case (1 path lines i conflicts)
  from "1.prems" have lt: "i < length lines" by simp
  show ?case
  proof (cases "startswith (lines ! i) ''<<<<<<<''")
    case False
    with "1.prems" have "i \<noteq> k" by auto
    with "1.prems" have "i + 1 \<le> k" by simp
    from "1.IH"(2) [OF lt False this "1.prems"(2,3,4)] parse_loop_skip [OF lt False]
    show ?thesis by simp
  next
    case True
    obtain i1 current_lines where s1: "scan_until ''======='' lines (i + 1) [] = (i1, current_lines)"
      by (cases "scan_until ''======='' lines (i + 1) []")
    obtain i3 incoming_lines where s2: "scan_until ''>>>>>>>'' lines (i1 + 1) [] = (i3, incoming_lines)"
      by (cases "scan_until ''>>>>>>>'' lines (i1 + 1) []")
    let ?c = "\<lparr>file_path = path, start_line = i, end_line = i3,
                current_content = concat current_lines,
                incoming_content = concat incoming_lines,
                context_before = concat (slice lines (max 0 (i - 5)) i),
                context_after = concat (slice lines (i3 + 1) (min (length lines) (i3 + 6)))\<rparr>"
    have step: "parse_loop path lines i conflicts = parse_loop path lines (i3 + 1) (conflicts @ [?c])"
      using parse_loop_open [OF lt True, of i1 current_lines i3 incoming_lines path conflicts] s1 s2
      by simp
    from scan_until_bounds(1,2) [OF s1] lt have b1: "i + 1 \<le> i1" "i1 \<le> length lines" by simp_all
    from scan_until_bounds(1,2) [OF s2] b1 have b3: "i1 + 1 \<le> i3" "i3 \<le> length lines + 1"
      by simp_all
    show ?thesis
    proof (cases "i3 < length lines")
      case False
      then have "parse_loop path lines (i3 + 1) (conflicts @ [?c]) = conflicts @ [?c]"
        by (simp add: parse_loop_end)
      with step False b3 show ?thesis by simp
    next
      case i3: True
      from scan_until_bounds(3) [OF s2 i3] have cl: "startswith (lines ! i3) ''>>>>>>>''" .
      have "i3 \<noteq> k" using cl "1.prems"(3) opener_not_closer by blast
      moreover have "\<not> k < i3" using cl i3 "1.prems"(4) by blast
      ultimately have "i3 + 1 \<le> k" by simp
      from "1.IH"(1) [OF lt True s1 [symmetric] s2 [symmetric] this "1.prems"(2,3,4)] step
      show ?thesis by simp
    qed
  qed
qed

lemma startswith_iff: "startswith l p \<longleftrightarrow> (\<exists>label. l = p @ label)"
proof
  assume "startswith l p"
  then have "l = p @ drop (length p) l"
    unfolding startswith_def by (metis append_take_drop_id)
  then show "\<exists>label. l = p @ label" ..
next
  assume "\<exists>label. l = p @ label"
  then show "startswith l p" by (auto simp: startswith_def)
qed

lemma parse_loop_extends: "\<exists>more. parse_loop path lines i acc = acc @ more"
proof (induction path lines i acc rule: parse_loop.induct)
  case (1 path lines i conflicts)
  show ?case
  proof (cases "i < length lines")
    case False
    then show ?thesis by (simp add: parse_loop_end)
  next
    case lt: True
    show ?thesis
    proof (cases "startswith (lines ! i) ''<<<<<<<''")
      case False
      from "1.IH"(2) [OF lt False] parse_loop_skip [OF lt False] show ?thesis by simp
    next
      case True
      obtain i1 current_lines where s1: "scan_until ''======='' lines (i + 1) [] = (i1, current_lines)"
        by (cases "scan_until ''======='' lines (i + 1) []")
      obtain i3 incoming_lines where s2: "scan_until ''>>>>>>>'' lines (i1 + 1) [] = (i3, incoming_lines)"
        by (cases "scan_until ''>>>>>>>'' lines (i1 + 1) []")
      from "1.IH"(1) [OF lt True s1 [symmetric] s2 [symmetric]]
        parse_loop_open [OF lt True, of i1 current_lines i3 incoming_lines path conflicts] s1 s2
      show ?thesis by auto
    qed
  qed
qed

lemma parse_loop_opens:
  assumes "i < length lines" and "startswith (lines ! i) ''<<<<<<<''"
  shows "length acc < length (parse_loop path lines i acc) \<and>
    start_line (parse_loop path lines i acc ! length acc) = i"
proof -
  obtain i1 current_lines where s1: "scan_until ''======='' lines (Suc i) [] = (i1, current_lines)"
    by (cases "scan_until ''======='' lines (Suc i) []")
  obtain i3 incoming_lines where s2: "scan_until ''>>>>>>>'' lines (Suc i1) [] = (i3, incoming_lines)"
    by (cases "scan_until ''>>>>>>>'' lines (Suc i1) []")
  let ?c = "\<lparr>file_path = path, start_line = i, end_line = i3,
                current_content = concat current_lines,
                incoming_content = concat incoming_lines,
                context_before = concat (slice lines (max 0 (i - 5)) i),
                context_after = concat (slice lines (i3 + 1) (min (length lines) (i3 + 6)))\<rparr>"
  obtain more where "parse_loop path lines (Suc i3) (acc @ [?c]) = (acc @ [?c]) @ more"
    using parse_loop_extends by blast
  with parse_loop_open [OF assms s1 s2, of path acc]
  have "parse_loop path lines i acc = acc @ ?c # more" by simp
  then show ?thesis by simp
qed





section \<open>The claims\<close>

text \<open>
  Claim C1. A file whose lines are
  \<^verbatim>\<open>["a\n", "<<<<<<< HEAD\n", "x\n", "=======\n", "y\n", ">>>>>>> feature\n", "b\n"]\<close>
  is scanned into exactly one conflict block, with \<open>start_line = 1\<close>, \<open>end_line = 5\<close>,
  local content \<^verbatim>\<open>x\n\<close>, incoming content \<^verbatim>\<open>y\n\<close>, context before \<^verbatim>\<open>a\n\<close> and
  context after \<^verbatim>\<open>b\n\<close>; the code keeps each of the four as the joined text of its
  lines. Keeping the incoming side of that block (menu entry "Keep THEIR version", for a
  resolution with a merged text whose display block raises nothing) returns \<open>True\<close> and
  leaves the file with the lines \<^verbatim>\<open>["a\n", "y\n", "b\n"]\<close>.
\<close>

theorem scenario_keep_incoming:
  assumes "files w path = Some text"
    and "readlines text = scenario_lines"
    and "path \<notin> unwritable w"
    and "merged_content r = Some merged" and "merged \<noteq> []"
    and "display (console w) (scenario_block path) r merged = None"
  shows "parse_conflict_file w path =
      ([scenario_block path], w\<lparr>trace := trace w @ [OpenRead path]\<rparr>) \<and>
    fst (resolve_conflict (w\<lparr>trace := trace w @ [OpenRead path]\<rparr>)
           (scenario_block path) r (Selected ''Keep THEIR version'')) = Inr True \<and>
    files (snd (resolve_conflict (w\<lparr>trace := trace w @ [OpenRead path]\<rparr>)
           (scenario_block path) r (Selected ''Keep THEIR version''))) =
      (files w)(path \<mapsto> concat [''a\<newline>'', ''y\<newline>'', ''b\<newline>'']) \<and>
    readlines (concat [''a\<newline>'', ''y\<newline>'', ''b\<newline>'']) =
      [''a\<newline>'', ''y\<newline>'', ''b\<newline>'']"
proof -
  have scan: "parse_conflict_file w path =
      ([scenario_block path], w\<lparr>trace := trace w @ [OpenRead path]\<rparr>)"
    using assms(1,2) by (simp add: parse_conflict_file_def read_file_lines_def scan_example Let_def)
  have splice: "take 1 scenario_lines @ [''y\<newline>''] @ drop 6 scenario_lines =
      [''a\<newline>'', ''y\<newline>'', ''b\<newline>'']"
    by (simp add: scenario_lines_def)
  have keep: "ensure_newline (incoming_content (scenario_block path)) = ''y\<newline>''"
    by (simp add: scenario_block_def ensure_newline_def endswith_def)
  have "apply_resolution (w\<lparr>trace := trace w @ [OpenRead path]\<rparr>) (scenario_block path)
          (incoming_content (scenario_block path)) =
        (True, w\<lparr>trace := trace w @ [OpenRead path, OpenRead path, OpenWrite path],
                   files := (files w)(path \<mapsto> concat [''a\<newline>'', ''y\<newline>'', ''b\<newline>''])\<rparr>)"
    unfolding apply_resolution_def keep
    using assms(1,2,3) splice
    by (simp add: read_file_lines_def write_file_lines_def Let_def scenario_block_def)
  then have "resolve_conflict (w\<lparr>trace := trace w @ [OpenRead path]\<rparr>)
          (scenario_block path) r (Selected ''Keep THEIR version'') =
        (Inr True, w\<lparr>trace := trace w @ [OpenRead path, OpenRead path, OpenWrite path],
                   files := (files w)(path \<mapsto> concat [''a\<newline>'', ''y\<newline>'', ''b\<newline>''])\<rparr>)"
    using assms(4,5,6) by (simp add: resolve_conflict_def choose_content_def)
  with scan readlines_three show ?thesis by simp
qed

theorem scenario_keep_incoming_witness:
  "parse_conflict_file scenario_world ''f.txt'' =
      ([scenario_block ''f.txt''], scenario_world\<lparr>trace := [OpenRead ''f.txt'']\<rparr>) \<and>
   fst (resolve_conflict (scenario_world\<lparr>trace := [OpenRead ''f.txt'']\<rparr>)
          (scenario_block ''f.txt'') scenario_resolution (Selected ''Keep THEIR version'')) = Inr True \<and>
   files (snd (resolve_conflict (scenario_world\<lparr>trace := [OpenRead ''f.txt'']\<rparr>)
          (scenario_block ''f.txt'') scenario_resolution (Selected ''Keep THEIR version''))) ''f.txt'' =
      Some ''a\<newline>y\<newline>b\<newline>''"
proof -
  have 1: "files scenario_world ''f.txt'' = Some (concat scenario_lines)"
    by (simp add: scenario_world_def)
  have 2: "readlines (concat scenario_lines) = scenario_lines"
    by (simp add: scenario_lines_def readlines_def)
  have 3: "''f.txt'' \<notin> unwritable scenario_world"
    by (simp add: scenario_world_def)
  have 4: "merged_content scenario_resolution = Some ''y''"
    by (simp add: scenario_resolution_def)
  have 5: "''y'' \<noteq> []" by simp
  have 6: "display (console scenario_world) (scenario_block ''f.txt'') scenario_resolution ''y'' = None"
    by (rule display_examples)
  have 7: "trace scenario_world = []" by (simp add: scenario_world_def)
  show ?thesis
    using scenario_keep_incoming [OF 1 2 3 4 5 6] by (simp add: 7)
qed




text \<open>
  Claim C5, as stated: for a region whose two sides are not empty, a resolution with choice
  keep-both is replaced by the local side followed by the incoming side, derived from the
  region. It fails: the code has no keep-both path of its own. A resolution tagged
  \<^verbatim>\<open>keep_both\<close> that the user accepts is applied through its \<^verbatim>\<open>merged_content\<close>; in the
  scenario, with merged text \<^verbatim>\<open>z\n\<close>, the file becomes \<^verbatim>\<open>a\n z\n b\n\<close> and not
  \<^verbatim>\<open>a\n x\n y\n b\n\<close>.
\<close>

theorem keep_both_counterexample:
  "suggestion keep_both_resolution = Some ''keep_both'' \<and>
   current_content (scenario_block ''f.txt'') \<noteq> [] \<and>
   incoming_content (scenario_block ''f.txt'') \<noteq> [] \<and>
   current_content (scenario_block ''f.txt'') @ incoming_content (scenario_block ''f.txt'') =
     ''x\<newline>y\<newline>'' \<and>
   resolve_conflict scenario_world (scenario_block ''f.txt'') keep_both_resolution
       (Selected ''Accept AI suggestion'') =
     (Inr True, scenario_world\<lparr>trace := [OpenRead ''f.txt'', OpenWrite ''f.txt''],
        files := [''f.txt'' \<mapsto> ''a\<newline>z\<newline>b\<newline>'']\<rparr>) \<and>
   ''a\<newline>z\<newline>b\<newline>'' \<noteq> concat [''a\<newline>'', ''x\<newline>y\<newline>'', ''b\<newline>'']"
proof -
  have "files scenario_world (file_path (scenario_block ''f.txt'')) = Some (concat scenario_lines)"
    and "file_path (scenario_block ''f.txt'') \<notin> unwritable scenario_world"
    by (simp_all add: scenario_block_simps scenario_world_simps)
  from resolve_conflict_applied [OF merged_examples(3) _ display_examples(3) _ _ this,
      of "''Accept AI suggestion''"]
  have "resolve_conflict scenario_world (scenario_block ''f.txt'') keep_both_resolution
       (Selected ''Accept AI suggestion'') =
     (Inr True, scenario_world\<lparr>trace := [OpenRead ''f.txt'', OpenWrite ''f.txt''],
        files := [''f.txt'' \<mapsto> ''a\<newline>z\<newline>b\<newline>'']\<rparr>)"
    unfolding readlines_scenario
    by (simp add: scenario_block_simps scenario_world_simps scenario_lines_def choose_content_def
        ensure_newline_def endswith_def scenario_world_def)
  then show ?thesis
    by (simp add: scenario_block_simps keep_both_resolution_def)
qed

text \<open>
  Claim C5, amended. A resolution tagged \<^verbatim>\<open>keep_both\<close> that the user accepts (its merged
  text is not empty and the display block raises nothing, so that the menu is reached)
  replaces the lines \<open>start_line\<close> through \<open>end_line\<close> by the resolution's own
  \<^verbatim>\<open>merged_content\<close>, with a newline appended when it lacks one, whatever the two sides of
  the region are.
\<close>

theorem keep_both_uses_merged_content:
  assumes "suggestion r = Some ''keep_both''"
    and "merged_content r = Some merged" and "merged \<noteq> []"
    and "display (console w) c r merged = None"
    and "files w (file_path c) = Some text" and "file_path c \<notin> unwritable w"
  shows "fst (resolve_conflict w c r (Selected ''Accept AI suggestion'')) = Inr True \<and>
    files (snd (resolve_conflict w c r (Selected ''Accept AI suggestion''))) =
      (files w)(file_path c \<mapsto>
        concat (take (start_line c) (readlines text) @
                [if last merged = LF then merged else merged @ [LF]] @
                drop (end_line c + 1) (readlines text)))"
proof -
  have "ensure_newline (choose_content ''Accept AI suggestion'' c merged) =
      (if last merged = LF then merged else merged @ [LF])"
    using assms(3) by (simp add: choose_content_def ensure_newline_last)
  with resolve_conflict_applied [OF assms(2,3,4) _ _ assms(5,6), of "''Accept AI suggestion''"]
  show ?thesis by simp
qed

theorem keep_both_uses_merged_content_witness:
  "fst (resolve_conflict scenario_world (scenario_block ''f.txt'') keep_both_resolution
          (Selected ''Accept AI suggestion'')) = Inr True \<and>
   files (snd (resolve_conflict scenario_world (scenario_block ''f.txt'') keep_both_resolution
          (Selected ''Accept AI suggestion''))) ''f.txt'' = Some ''a\<newline>z\<newline>b\<newline>''"
proof -
  have 1: "suggestion keep_both_resolution = Some ''keep_both''"
    by (simp add: keep_both_resolution_def)
  have 5: "files scenario_world (file_path (scenario_block ''f.txt'')) = Some (concat scenario_lines)"
    by (simp add: scenario_block_simps scenario_world_simps)
  have 6: "file_path (scenario_block ''f.txt'') \<notin> unwritable scenario_world"
    by (simp add: scenario_block_simps scenario_world_simps)
  have 3: "''z\<newline>'' \<noteq> []" by simp
  show ?thesis
    using keep_both_uses_merged_content [OF 1 merged_examples(3) 3 display_examples(3) 5 6]
    unfolding readlines_scenario
    by (simp add: scenario_block_simps scenario_lines_def)
qed

text \<open>
  Claim C6, as stated: the replacement text is never empty after normalization, for every
  choice. It fails for "Keep YOUR version" (and likewise "Keep THEIR version") on a conflict
  whose kept side is empty: the scanner returns such a block, the replacement is the empty
  text, and it is written, which deletes the block.
\<close>

theorem empty_replacement_counterexample:
  "fst (parse_conflict_file deleted_world ''f.txt'') = [deleted_block] \<and>
   merged_content scenario_resolution = Some ''y'' \<and>
   ensure_newline (choose_content ''Keep YOUR version'' deleted_block ''y'') = [] \<and>
   resolve_conflict deleted_world deleted_block scenario_resolution
       (Selected ''Keep YOUR version'') =
     (Inr True, deleted_world\<lparr>trace := [OpenRead ''f.txt'', OpenWrite ''f.txt''],
        files := [''f.txt'' \<mapsto> ''a\<newline>b\<newline>'']\<rparr>)"
proof -
  have scan: "fst (parse_conflict_file deleted_world ''f.txt'') = [deleted_block]"
    by (simp add: parse_conflict_file_def read_file_lines_def deleted_world_simps
        readlines_deleted scan_deleted Let_def)
  have rep: "ensure_newline (choose_content ''Keep YOUR version'' deleted_block ''y'') = []"
    by (simp add: choose_content_def ensure_newline_def deleted_block_simps)
  have "files deleted_world (file_path deleted_block) = Some (concat deleted_lines)"
    and "file_path deleted_block \<notin> unwritable deleted_world"
    by (simp_all add: deleted_block_simps deleted_world_simps)
  from resolve_conflict_applied [OF merged_examples(1) _ display_examples(1) _ _ this,
      of "''Keep YOUR version''"]
  have "resolve_conflict deleted_world deleted_block scenario_resolution
       (Selected ''Keep YOUR version'') =
     (Inr True, deleted_world\<lparr>trace := [OpenRead ''f.txt'', OpenWrite ''f.txt''],
        files := [''f.txt'' \<mapsto> ''a\<newline>b\<newline>'']\<rparr>)"
    unfolding readlines_deleted rep
    by (simp add: deleted_block_simps deleted_world_simps deleted_lines_def deleted_world_def)
  with scan rep show ?thesis by (simp add: merged_examples)
qed

text \<open>
  Claim C6, amended. A resolution whose \<^verbatim>\<open>merged_content\<close> is empty or missing is rejected
  with \<open>False\<close> before any file is read or written, whatever the user would answer. When a
  resolution is applied through any entry other than "Keep YOUR version" and "Keep THEIR
  version", the replacement is the newline-terminated \<^verbatim>\<open>merged_content\<close> and is not empty.
\<close>

theorem empty_merged_content_rejected:
  "(merged_content r = None \<or> merged_content r = Some [] \<longrightarrow>
      resolve_conflict w c r answer = (Inr False, w)) \<and>
   (fst (resolve_conflict w c r (Selected choice)) = Inr True \<and>
    choice \<noteq> ''Keep YOUR version'' \<and> choice \<noteq> ''Keep THEIR version'' \<longrightarrow>
      (\<exists>merged body. merged_content r = Some merged \<and> files w (file_path c) = Some body \<and>
         ensure_newline merged \<noteq> [] \<and>
         files (snd (resolve_conflict w c r (Selected choice))) =
           (files w)(file_path c \<mapsto>
              concat (take (start_line c) (readlines body) @ [ensure_newline merged] @
                      drop (end_line c + 1) (readlines body)))))"
proof (intro conjI impI)
  assume "merged_content r = None \<or> merged_content r = Some []"
  then show "resolve_conflict w c r answer = (Inr False, w)"
    by (rule resolve_conflict_rejected)
next
  assume a: "fst (resolve_conflict w c r (Selected choice)) = Inr True \<and>
    choice \<noteq> ''Keep YOUR version'' \<and> choice \<noteq> ''Keep THEIR version''"
  then have "fst (resolve_conflict w c r (Selected choice)) = Inr True" by simp
  from resolve_conflict_True [OF this]
  obtain merged body where m: "merged_content r = Some merged" "merged \<noteq> []"
    and d: "display (console w) c r merged = None"
    and ch: "choice \<noteq> ''Cancel''" "choice \<noteq> ''Skip for now''"
    and t: "files w (file_path c) = Some body" and u: "file_path c \<notin> unwritable w"
    by blast
  have cc: "choose_content choice c merged = merged"
    using a by (simp add: choose_content_def)
  have ne: "ensure_newline merged \<noteq> []"
    using m(2) by (simp add: ensure_newline_def)
  have "files (snd (resolve_conflict w c r (Selected choice))) =
           (files w)(file_path c \<mapsto>
              concat (take (start_line c) (readlines body) @ [ensure_newline merged] @
                      drop (end_line c + 1) (readlines body)))"
    using resolve_conflict_applied [OF m d ch t u] cc by simp
  with m t ne
  show "\<exists>merged body. merged_content r = Some merged \<and> files w (file_path c) = Some body \<and>
         ensure_newline merged \<noteq> [] \<and>
         files (snd (resolve_conflict w c r (Selected choice))) =
           (files w)(file_path c \<mapsto>
              concat (take (start_line c) (readlines body) @ [ensure_newline merged] @
                      drop (end_line c + 1) (readlines body)))"
    by blast
qed

theorem empty_merged_content_rejected_witness:
  "resolve_conflict deleted_world deleted_block empty_resolution
     (Selected ''Keep YOUR version'') = (Inr False, deleted_world) \<and>
   fst (resolve_conflict scenario_world (scenario_block ''f.txt'') custom_resolution
     (Selected ''Accept AI suggestion'')) = Inr True \<and>
   ensure_newline ''z'' \<noteq> [] \<and>
   files (snd (resolve_conflict scenario_world (scenario_block ''f.txt'') custom_resolution
     (Selected ''Accept AI suggestion''))) ''f.txt'' =
     Some (concat (take 1 scenario_lines @ [ensure_newline ''z''] @ drop 6 scenario_lines))"
proof -
  have e: "merged_content empty_resolution = Some []" by (simp add: empty_resolution_def)
  have 1: "resolve_conflict deleted_world deleted_block empty_resolution
     (Selected ''Keep YOUR version'') = (Inr False, deleted_world)"
    using empty_merged_content_rejected [of empty_resolution deleted_world deleted_block
        "Selected ''Keep YOUR version''"] e by simp
  have "files scenario_world (file_path (scenario_block ''f.txt'')) = Some (concat scenario_lines)"
    and "file_path (scenario_block ''f.txt'') \<notin> unwritable scenario_world"
    by (simp_all add: scenario_block_simps scenario_world_simps)
  from resolve_conflict_applied [OF merged_examples(2) _ display_examples(2) _ _ this,
      of "''Accept AI suggestion''"]
  have 2: "fst (resolve_conflict scenario_world (scenario_block ''f.txt'') custom_resolution
     (Selected ''Accept AI suggestion'')) = Inr True"
    by simp
  have pre: "fst (resolve_conflict scenario_world (scenario_block ''f.txt'') custom_resolution
       (Selected ''Accept AI suggestion'')) = Inr True \<and>
     ''Accept AI suggestion'' \<noteq> ''Keep YOUR version'' \<and>
     ''Accept AI suggestion'' \<noteq> ''Keep THEIR version''"
    using 2 by simp
  from mp [OF conjunct2 [OF empty_merged_content_rejected [of custom_resolution scenario_world
        "scenario_block ''f.txt''" KeyboardInterrupt "''Accept AI suggestion''"]] pre]
  obtain merged body where "merged_content custom_resolution = Some merged"
    and "files scenario_world (file_path (scenario_block ''f.txt'')) = Some body"
    and 3: "ensure_newline merged \<noteq> []"
    and 4: "files (snd (resolve_conflict scenario_world (scenario_block ''f.txt'')
         custom_resolution (Selected ''Accept AI suggestion''))) =
       (files scenario_world)(file_path (scenario_block ''f.txt'') \<mapsto>
          concat (take (start_line (scenario_block ''f.txt'')) (readlines body) @
                  [ensure_newline merged] @
                  drop (end_line (scenario_block ''f.txt'') + 1) (readlines body)))"
    by blast
  then have "merged = ''z''" and "body = concat scenario_lines"
    by (simp_all add: merged_examples scenario_block_simps scenario_world_simps)
  with 3 4 have "ensure_newline ''z'' \<noteq> []"
    and "files (snd (resolve_conflict scenario_world (scenario_block ''f.txt'') custom_resolution
     (Selected ''Accept AI suggestion''))) ''f.txt'' =
     Some (concat (take 1 scenario_lines @ [ensure_newline ''z''] @ drop 6 scenario_lines))"
    by (simp_all add: readlines_scenario scenario_block_simps)
  with 1 2 show ?thesis by simp
qed

text \<open>
  Claim C7, as stated: a replacement that lacks a final terminator gets one that matches
  the dominant terminator style of the file. It fails: on a file whose every line ends in
  \<^verbatim>\<open>\r\n\<close> the replacement \<^verbatim>\<open>z\<close> becomes \<^verbatim>\<open>z\n\<close>, and the file is written back with
  \<^verbatim>\<open>\n\<close> terminators only.
\<close>

theorem terminator_style_counterexample:
  "spec_dominant_terminator crlf_text = [CR, LF] \<and>
   fst (parse_conflict_file crlf_world ''f.txt'') = [scenario_block ''f.txt''] \<and>
   merged_content custom_resolution = Some ''z'' \<and>
   ensure_newline ''z'' = ''z'' @ [LF] \<and>
   ensure_newline ''z'' \<noteq> ''z'' @ spec_dominant_terminator crlf_text \<and>
   resolve_conflict crlf_world (scenario_block ''f.txt'') custom_resolution
       (Selected ''Accept AI suggestion'') =
     (Inr True, crlf_world\<lparr>trace := [OpenRead ''f.txt'', OpenWrite ''f.txt''],
        files := [''f.txt'' \<mapsto> ''a\<newline>z\<newline>b\<newline>'']\<rparr>)"
proof -
  have dom: "spec_dominant_terminator crlf_text = [CR, LF]"
    by (simp add: spec_dominant_terminator_def crlf_text_def)
  have scan: "fst (parse_conflict_file crlf_world ''f.txt'') = [scenario_block ''f.txt'']"
    by (simp add: parse_conflict_file_def read_file_lines_def crlf_world_simps
        readlines_crlf scan_example Let_def)
  have en: "ensure_newline ''z'' = ''z'' @ [LF]"
    by (simp add: ensure_newline_def endswith_def)
  have "files crlf_world (file_path (scenario_block ''f.txt'')) = Some crlf_text"
    and "file_path (scenario_block ''f.txt'') \<notin> unwritable crlf_world"
    by (simp_all add: scenario_block_simps crlf_world_simps)
  from resolve_conflict_applied [OF merged_examples(2) _ display_examples(4) _ _ this,
      of "''Accept AI suggestion''"]
  have "resolve_conflict crlf_world (scenario_block ''f.txt'') custom_resolution
       (Selected ''Accept AI suggestion'') =
     (Inr True, crlf_world\<lparr>trace := [OpenRead ''f.txt'', OpenWrite ''f.txt''],
        files := [''f.txt'' \<mapsto> ''a\<newline>z\<newline>b\<newline>'']\<rparr>)"
    unfolding readlines_crlf
    by (simp add: scenario_block_simps crlf_world_simps scenario_lines_def choose_content_def en
        crlf_world_def)
  with dom scan en show ?thesis by (simp add: merged_examples)
qed

text \<open>
  Claim C7, amended. A replacement that is not empty and does not end in a line feed gets a
  single line feed appended before it is spliced in, whatever the file's terminators are; a
  replacement that is empty or ends in a line feed is spliced in as it is.
\<close>

theorem newline_appended:
  "(content \<noteq> [] \<and> last content \<noteq> LF \<longrightarrow> ensure_newline content = content @ [LF]) \<and>
   (content = [] \<or> last content = LF \<longrightarrow> ensure_newline content = content) \<and>
   (files w (file_path c) = Some text \<and> file_path c \<notin> unwritable w \<longrightarrow>
      apply_resolution w c content =
        (True, w\<lparr>trace := trace w @ [OpenRead (file_path c), OpenWrite (file_path c)],
                 files := (files w)(file_path c \<mapsto>
                   concat (take (start_line c) (readlines text) @ [ensure_newline content] @
                           drop (end_line c + 1) (readlines text)))\<rparr>))"
  using apply_resolution_ok [of w c "text" content]
  by (auto simp: ensure_newline_last)

theorem newline_appended_witness:
  "ensure_newline ''z'' = ''z\<newline>'' \<and> ensure_newline ''z\<newline>'' = ''z\<newline>'' \<and>
   ensure_newline [] = [] \<and>
   apply_resolution crlf_world (scenario_block ''f.txt'') ''z'' =
     (True, crlf_world\<lparr>trace := [OpenRead ''f.txt'', OpenWrite ''f.txt''],
        files := [''f.txt'' \<mapsto> ''a\<newline>z\<newline>b\<newline>'']\<rparr>)"
proof -
  have a: "ensure_newline ''z'' = ''z\<newline>''"
    using newline_appended [of "''z''"] by simp
  have b: "ensure_newline ''z\<newline>'' = ''z\<newline>''"
    using newline_appended [of "''z\<newline>''"] by simp
  have c: "ensure_newline [] = []"
    using newline_appended [of "[]"] by simp
  have "apply_resolution crlf_world (scenario_block ''f.txt'') ''z'' =
     (True, crlf_world\<lparr>trace := [OpenRead ''f.txt'', OpenWrite ''f.txt''],
        files := [''f.txt'' \<mapsto> ''a\<newline>z\<newline>b\<newline>'']\<rparr>)"
    using newline_appended [of "''z''" crlf_world "scenario_block ''f.txt''" crlf_text]
    unfolding readlines_crlf a
    by (simp add: scenario_block_simps crlf_world_simps scenario_lines_def crlf_world_def)
  with a b c show ?thesis by simp
qed




text \<open>
  Claim C10. When \<^verbatim>\<open>merged_content\<close> is empty or missing, or the user is shown the menu (the
  display block raised nothing) and answers "Cancel" or "Skip for now", \<^verbatim>\<open>resolve_conflict\<close>
  returns \<open>False\<close> and the world is the one it started in: no file was opened for reading or
  writing and no content changed. Whatever the display block does, a call answered by
  "Cancel" or "Skip for now" leaves the world as it was and does not return \<open>True\<close>.
\<close>

theorem rejected_or_declined_no_io:
  "(merged_content r = None \<or> merged_content r = Some [] \<or>
    (\<exists>merged. merged_content r = Some merged \<and> display (console w) c r merged = None \<and>
       (answer = Selected ''Cancel'' \<or> answer = Selected ''Skip for now'')) \<longrightarrow>
      resolve_conflict w c r answer = (Inr False, w)) \<and>
   (answer = Selected ''Cancel'' \<or> answer = Selected ''Skip for now'' \<longrightarrow>
      snd (resolve_conflict w c r answer) = w \<and>
      fst (resolve_conflict w c r answer) \<noteq> Inr True)"
proof (intro conjI impI)
  assume "merged_content r = None \<or> merged_content r = Some [] \<or>
    (\<exists>merged. merged_content r = Some merged \<and> display (console w) c r merged = None \<and>
       (answer = Selected ''Cancel'' \<or> answer = Selected ''Skip for now''))"
  then show "resolve_conflict w c r answer = (Inr False, w)"
    using resolve_conflict_rejected [of r w c answer] resolve_conflict_declined [of r _ w c answer]
    by blast
next
  assume a: "answer = Selected ''Cancel'' \<or> answer = Selected ''Skip for now''"
  then show "snd (resolve_conflict w c r answer) = w"
    and "fst (resolve_conflict w c r answer) \<noteq> Inr True"
    using resolve_conflict_world [of answer w c r] by blast+
qed

theorem rejected_or_declined_no_io_witness:
  "resolve_conflict scenario_world (scenario_block ''f.txt'') empty_resolution
     (Selected ''Accept AI suggestion'') = (Inr False, scenario_world) \<and>
   resolve_conflict scenario_world (scenario_block ''f.txt'') missing_resolution
     (Selected ''Accept AI suggestion'') = (Inr False, scenario_world) \<and>
   resolve_conflict scenario_world (scenario_block ''f.txt'') custom_resolution
     (Selected ''Cancel'') = (Inr False, scenario_world) \<and>
   resolve_conflict scenario_world (scenario_block ''f.txt'') custom_resolution
     (Selected ''Skip for now'') = (Inr False, scenario_world) \<and>
   files scenario_world ''f.txt'' = Some (concat scenario_lines) \<and> trace scenario_world = []"
proof -
  have 1: "merged_content empty_resolution = Some []" by (simp add: empty_resolution_def)
  have 2: "merged_content missing_resolution = None" by (simp add: missing_resolution_def)
  have 3: "\<exists>merged. merged_content custom_resolution = Some merged \<and>
      display (console scenario_world) (scenario_block ''f.txt'') custom_resolution merged = None \<and>
      (Selected ''Cancel'' = Selected ''Cancel'' \<or> Selected ''Cancel'' = Selected ''Skip for now'')"
    using merged_examples(2) display_examples(2) by simp
  have 4: "\<exists>merged. merged_content custom_resolution = Some merged \<and>
      display (console scenario_world) (scenario_block ''f.txt'') custom_resolution merged = None \<and>
      (Selected ''Skip for now'' = Selected ''Cancel'' \<or>
       Selected ''Skip for now'' = Selected ''Skip for now'')"
    using merged_examples(2) display_examples(2) by simp
  note t = rejected_or_declined_no_io [THEN conjunct1, THEN mp]
  have a: "resolve_conflict scenario_world (scenario_block ''f.txt'') empty_resolution
     (Selected ''Accept AI suggestion'') = (Inr False, scenario_world)"
    by (rule t) (simp add: 1)
  have b: "resolve_conflict scenario_world (scenario_block ''f.txt'') missing_resolution
     (Selected ''Accept AI suggestion'') = (Inr False, scenario_world)"
    by (rule t) (simp add: 2)
  have c: "resolve_conflict scenario_world (scenario_block ''f.txt'') custom_resolution
     (Selected ''Cancel'') = (Inr False, scenario_world)"
    by (rule t) (use 3 in blast)
  have d: "resolve_conflict scenario_world (scenario_block ''f.txt'') custom_resolution
     (Selected ''Skip for now'') = (Inr False, scenario_world)"
    by (rule t) (use 4 in blast)
  from a b c d show ?thesis by (simp add: scenario_world_simps)
qed




text \<open>
  Claim C2, as stated: for a file with an opening marker that no closing marker follows, the
  scanner reports a detection error and never returns a region whose \<open>end_line\<close> is at or
  beyond the line count. It fails: the scanner has no error result, and for the two-line
  file \<^verbatim>\<open>["<<<<<<< HEAD\n", "x\n"]\<close> it returns a region with \<open>end_line = 3\<close>; with a separator
  and no closing marker, in a file of four lines, \<open>end_line = 4\<close>.
\<close>

theorem unterminated_region_counterexample:
  "readlines ''<<<<<<< HEAD\<newline>x\<newline>'' = [''<<<<<<< HEAD\<newline>'', ''x\<newline>''] \<and>
   fst (parse_conflict_file unterminated_world ''f.txt'') =
     [\<lparr>file_path = ''f.txt'', start_line = 0, end_line = 3,
        current_content = ''x\<newline>'', incoming_content = [],
        context_before = [], context_after = []\<rparr>] \<and>
   length (readlines ''<<<<<<< HEAD\<newline>x\<newline>'') \<le>
     end_line (last (fst (parse_conflict_file unterminated_world ''f.txt''))) \<and>
   length (readlines ''<<<<<<< HEAD\<newline>x\<newline>=======\<newline>y\<newline>'') = 4 \<and>
   fst (parse_conflict_file unterminated_world ''g.txt'') =
     [\<lparr>file_path = ''g.txt'', start_line = 0, end_line = 4,
        current_content = ''x\<newline>'', incoming_content = ''y\<newline>'',
        context_before = [], context_after = []\<rparr>]"
  by (simp add: parse_conflict_file_def read_file_lines_def unterminated_world_def readlines_def
      Let_def parse_loop.simps scan_until.simps startswith_def slice_def)

text \<open>
  Claim C2, amended. For every file with an opening marker line that no closing marker line
  follows before the end of the file, the scanner reports no error and returns a region
  list that is not empty; its last region is the unterminated one, and its \<open>end_line\<close> is at
  least the file's line count and at most one more.
\<close>

theorem unterminated_region_returned:
  assumes "files w path = Some body"
    and "k < length (readlines body)"
    and "startswith (readlines body ! k) ''<<<<<<<''"
    and "\<forall>j. k < j \<and> j < length (readlines body) \<longrightarrow>
           \<not> startswith (readlines body ! j) ''>>>>>>>''"
  shows "fst (parse_conflict_file w path) \<noteq> [] \<and>
    length (readlines body) \<le> end_line (last (fst (parse_conflict_file w path))) \<and>
    end_line (last (fst (parse_conflict_file w path))) \<le> length (readlines body) + 1"
proof -
  have "fst (parse_conflict_file w path) = parse_loop path (readlines body) 0 []"
    using assms(1) by (simp add: parse_conflict_file_def read_file_lines_def Let_def)
  with parse_loop_unterminated [OF _ assms(2,3,4), of 0 path "[]"] show ?thesis by simp
qed

theorem unterminated_region_returned_witness:
  "fst (parse_conflict_file unterminated_world ''f.txt'') \<noteq> [] \<and>
   2 \<le> end_line (last (fst (parse_conflict_file unterminated_world ''f.txt''))) \<and>
   end_line (last (fst (parse_conflict_file unterminated_world ''f.txt''))) \<le> 3"
proof -
  have 1: "files unterminated_world ''f.txt'' = Some ''<<<<<<< HEAD\<newline>x\<newline>''"
    by (simp add: unterminated_world_def)
  have r: "readlines ''<<<<<<< HEAD\<newline>x\<newline>'' = [''<<<<<<< HEAD\<newline>'', ''x\<newline>'']"
    by (simp add: readlines_def)
  have 2: "0 < length (readlines ''<<<<<<< HEAD\<newline>x\<newline>'')" by (simp add: r)
  have 3: "startswith (readlines ''<<<<<<< HEAD\<newline>x\<newline>'' ! 0) ''<<<<<<<''"
    by (simp add: r startswith_def)
  have 4: "\<forall>j. 0 < j \<and> j < length (readlines ''<<<<<<< HEAD\<newline>x\<newline>'') \<longrightarrow>
           \<not> startswith (readlines ''<<<<<<< HEAD\<newline>x\<newline>'' ! j) ''>>>>>>>''"
  proof (intro allI impI)
    fix j assume "0 < j \<and> j < length (readlines ''<<<<<<< HEAD\<newline>x\<newline>'')"
    then have "j = 1" by (simp add: r)
    then show "\<not> startswith (readlines ''<<<<<<< HEAD\<newline>x\<newline>'' ! j) ''>>>>>>>''"
      by (simp add: r startswith_def)
  qed
  show ?thesis
    using unterminated_region_returned [OF 1 2 3 4] by (simp add: r)
qed

text \<open>
  Claim C8, as stated: every input line is classified as an opening, separator or closing
  marker exactly when it has the prefix. It fails: which prefix a line is tested for depends
  on where the scan stands. A second \<^verbatim>\<open><<<<<<<\<close> line inside the local side of a region, or a
  \<^verbatim>\<open>>>>>>>>\<close> line there, is collected as local content, and a \<^verbatim>\<open>=======\<close> line outside every
  region is passed over.
\<close>

theorem marker_in_content_counterexample:
  "startswith ''<<<<<<< B\<newline>'' ''<<<<<<<'' \<and>
   map (\<lambda>r. (start_line r, end_line r, current_content r, incoming_content r))
     (parse_loop ''f.txt''
        [''<<<<<<< A\<newline>'', ''<<<<<<< B\<newline>'', ''=======\<newline>'', ''y\<newline>'',
         ''>>>>>>> f\<newline>''] 0 []) =
     [(0, 4, ''<<<<<<< B\<newline>'', ''y\<newline>'')] \<and>
   startswith ''>>>>>>> f\<newline>'' ''>>>>>>>'' \<and>
   map (\<lambda>r. (start_line r, end_line r, current_content r, incoming_content r))
     (parse_loop ''f.txt''
        [''<<<<<<< A\<newline>'', ''>>>>>>> f\<newline>'', ''=======\<newline>'', ''y\<newline>'',
         ''>>>>>>> g\<newline>''] 0 []) =
     [(0, 4, ''>>>>>>> f\<newline>'', ''y\<newline>'')] \<and>
   startswith ''=======\<newline>'' ''======='' \<and>
   parse_loop ''f.txt'' [''a\<newline>'', ''=======\<newline>'', ''b\<newline>''] 0 [] = []"
  by (simp add: parse_loop.simps scan_until.simps startswith_def slice_def)

text \<open>
  Claim C8, amended. Each test the scanner performs on a line is a prefix test, and the
  test depends on where the scan stands. Between regions, a line starts a region exactly
  when it is \<^verbatim>\<open><<<<<<<\<close> followed by any text, and is passed over otherwise. While a side of
  a region is collected, the lines up to the first one that is the awaited prefix
  (\<^verbatim>\<open>=======\<close> for the local side, \<^verbatim>\<open>>>>>>>>\<close> for the incoming side) followed by any text are
  content, whatever other prefix they have. So a region whose three marker lines carry
  arbitrary labels is recognised.
\<close>

theorem markers_matched_by_prefix:
  "(i < length lines \<and> (\<exists>label. lines ! i = ''<<<<<<<'' @ label) \<longrightarrow>
      length acc < length (parse_loop path lines i acc) \<and>
      start_line (parse_loop path lines i acc ! length acc) = i) \<and>
   (i < length lines \<and> \<not> (\<exists>label. lines ! i = ''<<<<<<<'' @ label) \<longrightarrow>
      parse_loop path lines i acc = parse_loop path lines (i + 1) acc) \<and>
   scan_until tok lines i found =
     (i + length (takeWhile (\<lambda>l. \<not> (\<exists>label. l = tok @ label)) (drop i lines)),
      found @ takeWhile (\<lambda>l. \<not> (\<exists>label. l = tok @ label)) (drop i lines)) \<and>
   ((\<forall>x\<in>set xs. \<not> (\<exists>label. x = ''======='' @ label)) \<and>
    (\<forall>y\<in>set ys. \<not> (\<exists>label. y = ''>>>>>>>'' @ label)) \<longrightarrow>
      map (\<lambda>r. (start_line r, end_line r, current_content r, incoming_content r))
        (parse_loop path ((''<<<<<<<'' @ a) # xs @ (''======='' @ b) # ys @ [''>>>>>>>'' @ c]) 0 []) =
      [(0, length xs + length ys + 2, concat xs, concat ys)])"
proof (intro conjI impI)
  assume "i < length lines \<and> (\<exists>label. lines ! i = ''<<<<<<<'' @ label)"
  then have "i < length lines" and "startswith (lines ! i) ''<<<<<<<''"
    by (simp_all add: startswith_iff)
  then show "length acc < length (parse_loop path lines i acc)"
    and "start_line (parse_loop path lines i acc ! length acc) = i"
    using parse_loop_opens by blast+
next
  assume "i < length lines \<and> \<not> (\<exists>label. lines ! i = ''<<<<<<<'' @ label)"
  then have "i < length lines" and "\<not> startswith (lines ! i) ''<<<<<<<''"
    by (simp_all add: startswith_iff)
  then show "parse_loop path lines i acc = parse_loop path lines (i + 1) acc"
    by (simp add: parse_loop_skip)
next
  have "(\<lambda>l. \<not> (\<exists>label. l = tok @ label)) = (\<lambda>l. \<not> startswith l tok)"
    by (simp only: startswith_iff)
  then show "scan_until tok lines i found =
     (i + length (takeWhile (\<lambda>l. \<not> (\<exists>label. l = tok @ label)) (drop i lines)),
      found @ takeWhile (\<lambda>l. \<not> (\<exists>label. l = tok @ label)) (drop i lines))"
    by (simp only: scan_until_takeWhile)
next
  assume a: "(\<forall>x\<in>set xs. \<not> (\<exists>label. x = ''======='' @ label)) \<and>
    (\<forall>y\<in>set ys. \<not> (\<exists>label. y = ''>>>>>>>'' @ label))"
  let ?s = "\<lparr>opener = ''<<<<<<<'' @ a, local_body = xs, separator = ''======='' @ b,
             incoming_body = ys, closer = ''>>>>>>>'' @ c, trailing = []\<rparr>"
  have wf: "\<forall>s\<in>set [?s]. well_formed_segment s"
    using a by (simp add: well_formed_segment_def startswith_iff)
  have doc: "document [] [?s] = (''<<<<<<<'' @ a) # xs @ (''======='' @ b) # ys @ [''>>>>>>>'' @ c]"
    by (simp add: document_def segment_lines_def)
  from parse_loop_document [of "[]" "[?s]" path, OF _ wf]
  show "map (\<lambda>r. (start_line r, end_line r, current_content r, incoming_content r))
        (parse_loop path ((''<<<<<<<'' @ a) # xs @ (''======='' @ b) # ys @ [''>>>>>>>'' @ c]) 0 []) =
      [(0, length xs + length ys + 2, concat xs, concat ys)]"
    unfolding doc by simp
qed

theorem markers_matched_by_prefix_witness:
  "map (\<lambda>r. (start_line r, end_line r, current_content r, incoming_content r))
     (parse_loop ''f.txt''
        [''<<<<<<< HEAD\<newline>'', ''x\<newline>'', ''======= base\<newline>'', ''y\<newline>'',
         ''>>>>>>> feature\<newline>''] 0 []) =
     [(0, 4, ''x\<newline>'', ''y\<newline>'')] \<and>
   parse_loop ''f.txt'' [''a\<newline>'', ''<<<<<<\<newline>''] 0 [] =
     parse_loop ''f.txt'' [''a\<newline>'', ''<<<<<<\<newline>''] 1 []"
proof -
  note t = markers_matched_by_prefix [where i = 0
      and lines = "[''a\<newline>'', ''<<<<<<\<newline>'']" and acc = "[]" and tok = "[]"
      and found = "[]" and path = "''f.txt''" and xs = "[''x\<newline>'']" and ys = "[''y\<newline>'']"
      and a = "'' HEAD\<newline>''" and b = "'' base\<newline>''" and c = "'' feature\<newline>''"]
  have 2: "0 < length [''a\<newline>'', ''<<<<<<\<newline>''] \<and>
      \<not> (\<exists>label. [''a\<newline>'', ''<<<<<<\<newline>''] ! 0 = ''<<<<<<<'' @ label)"
    by simp
  have 3: "(\<forall>x\<in>set [''x\<newline>'']. \<not> (\<exists>label. x = ''======='' @ label)) \<and>
    (\<forall>y\<in>set [''y\<newline>'']. \<not> (\<exists>label. y = ''>>>>>>>'' @ label))"
    by simp
  have a: "parse_loop ''f.txt'' [''a\<newline>'', ''<<<<<<\<newline>''] 0 [] =
     parse_loop ''f.txt'' [''a\<newline>'', ''<<<<<<\<newline>''] (0 + 1) []"
    by (rule mp [OF t [THEN conjunct2, THEN conjunct1] 2])
  have "map (\<lambda>r. (start_line r, end_line r, current_content r, incoming_content r))
        (parse_loop ''f.txt'' ((''<<<<<<<'' @ '' HEAD\<newline>'') # [''x\<newline>''] @
           (''======='' @ '' base\<newline>'') # [''y\<newline>''] @
           [''>>>>>>>'' @ '' feature\<newline>'']) 0 []) =
      [(0, length [''x\<newline>''] + length [''y\<newline>''] + 2,
        concat [''x\<newline>''], concat [''y\<newline>''])]"
    by (rule mp [OF t [THEN conjunct2, THEN conjunct2, THEN conjunct2] 3])
  then have c: "map (\<lambda>r. (start_line r, end_line r, current_content r, incoming_content r))
     (parse_loop ''f.txt''
        [''<<<<<<< HEAD\<newline>'', ''x\<newline>'', ''======= base\<newline>'', ''y\<newline>'',
         ''>>>>>>> feature\<newline>''] 0 []) =
     [(0, 4, ''x\<newline>'', ''y\<newline>'')]"
    by simp
  from a c show ?thesis by simp
qed

end
